theory Spec2Isabelle
  imports Main "HOL-Library.Multiset" "HOL-Library.Sublist"
begin

section \<open>Member list of a group or channel: ManageGroupMembers.tsx\<close>

text \<open>
  The component computes, from its props and two indexes of the global store, the list
  of user identifiers it shows: \<open>adminIds\<close>, \<open>memberIds\<close> and \<open>displayedIds\<close> are
  the three memoised values of the source, \<open>getMemberContextAction\<close> is its
  per-row menu. The helpers the component imports (\<open>unique\<close>, \<open>filterUsersByName\<close>,
  \<open>sortUserIds\<close>, \<open>sortChatIds\<close>, \<open>isUserBot\<close>, \<open>useInfiniteScroll\<close>) live in
  other files; they are modelled from the specification, and what the specification
  leaves open (how a name matches a query, the ranking keys of the two orderings) is a
  parameter.
\<close>

subsection \<open>Data\<close>

type_synonym ident = string

text \<open>
  \<open>ApiUser\<close>: the two things the component reads of a user record. An optional
  boolean of the source is a \<open>bool\<close> here: the code only ever tests its truthiness, and
  \<open>undefined\<close> is falsy.
\<close>

record ApiUser =
  canBeInvitedToGroup :: bool
  isBot :: bool

record ApiChatMember =
  userId :: ident

datatype error = TypeError

text \<open>
  The props the list computation reads (\<open>OwnProps\<close> and \<open>StateProps\<close>). Every
  optional prop that is not a boolean is an \<open>option\<close>, \<open>None\<close> being
  \<open>undefined\<close>. \<open>adminMembersById\<close> is a \<open>Record\<close> of which only
  \<open>Object.keys\<close> is taken, and of the keys only membership is tested: it is an
  association list, and its keys are taken in the list's order.
\<close>

record 's Props =
  noAdmins :: bool
  members :: "ApiChatMember list option"
  adminMembersById :: "(ident \<times> ApiChatMember) list option"
  userStatusesById :: "ident \<rightharpoonup> 's"
  isChannel :: bool
  localContactIds :: "ident list option"
  searchQuery :: "string option"
  localUserIds :: "ident list option"
  globalUserIds :: "ident list option"
  currentUserId :: "ident option"
  canDeleteMembers :: bool

text \<open>
  What \<open>getGlobal()\<close> gives the computation: \<open>users.byId\<close> and \<open>chats.byId\<close>.
  The source tests \<open>!usersById\<close> in \<open>memberIds\<close>, so the user index may be absent.
\<close>

record 'c GlobalState =
  usersById :: "(ident \<rightharpoonup> ApiUser) option"
  chatsById :: "ident \<rightharpoonup> 'c"

text \<open>
  The parts of the imported helpers that the specification leaves open: when a user's
  name matches a query, and the keys by which users and chats are ranked.
\<close>

record ('s, 'c) helpers =
  nameMatches :: "ApiUser \<Rightarrow> string \<Rightarrow> bool"
  presenceKey :: "(ident \<rightharpoonup> ApiUser) \<Rightarrow> (ident \<rightharpoonup> 's) \<Rightarrow> ident \<Rightarrow> int"
  chatKey :: "(ident \<rightharpoonup> 'c) \<Rightarrow> bool \<Rightarrow> ident \<Rightarrow> int"

subsection \<open>JavaScript primitives\<close>

text \<open>\<open>Boolean(s)\<close> of an optional string: \<open>undefined\<close> and the empty string are falsy.\<close>

definition truthy :: "string option \<Rightarrow> bool" where
  "truthy q = (case q of None \<Rightarrow> False | Some s \<Rightarrow> s \<noteq> [])"

text \<open>\<open>xs || []\<close> of an optional array.\<close>

definition orEmpty :: "'a list option \<Rightarrow> 'a list" where
  "orEmpty xs = (case xs of None \<Rightarrow> [] | Some ys \<Rightarrow> ys)"

text \<open>The text of a query; only a truthy query is ever passed on.\<close>

definition queryText :: "string option \<Rightarrow> string" where
  "queryText q = (case q of None \<Rightarrow> [] | Some s \<Rightarrow> s)"

text \<open>
  \<open>Array.prototype.filter\<close> with a callback that may throw: the callback runs on the
  elements from left to right, and the first exception ends the call. The callbacks
  here read \<open>usersById[id]\<close>, which throws a TypeError when \<open>usersById\<close> is
  \<open>undefined\<close>.
\<close>

fun filterE :: "('a \<Rightarrow> error + bool) \<Rightarrow> 'a list \<Rightarrow> error + 'a list" where
  "filterE f [] = Inr []"
| "filterE f (x # xs) =
     (case f x of
        Inl e \<Rightarrow> Inl e
      | Inr b \<Rightarrow>
          (case filterE f xs of
             Inl e \<Rightarrow> Inl e
           | Inr ys \<Rightarrow> Inr (if b then x # ys else ys)))"

subsection \<open>The imported helpers\<close>

text \<open>
  Modelled from the spec: \<open>unique\<close> of \<open>util/iteratees\<close> is not among the sources.
  Specification 4.1, \<open>deduplicate\<close>: the input with duplicates removed, preserving
  first-occurrence order. \<open>uniqueFrom seen xs\<close> appends to \<open>seen\<close> the elements of
  \<open>xs\<close> not met before.
\<close>

fun uniqueFrom :: "'a list \<Rightarrow> 'a list \<Rightarrow> 'a list" where
  "uniqueFrom seen [] = seen"
| "uniqueFrom seen (x # xs) = uniqueFrom (if x \<in> set seen then seen else seen @ [x]) xs"

definition unique :: "'a list \<Rightarrow> 'a list" where
  "unique xs = uniqueFrom [] xs"

text \<open>
  Modelled from the spec: \<open>isUserBot\<close> of \<open>global/helpers\<close> is not among the sources.
  Specification 6: a bot-classification predicate of the user record.
\<close>

definition isUserBot :: "ApiUser \<Rightarrow> bool" where
  "isUserBot user = isBot user"

text \<open>
  Modelled from the spec: \<open>filterUsersByName\<close> of \<open>global/helpers\<close> is not among the
  sources. Specification 4.1, \<open>filterByNamePrefix\<close>: the subsequence of the identifiers
  whose resolved user's name matches the query; identifiers with no resolvable user
  are dropped. \<open>nameHit\<close> is the verdict on one identifier; the index is read once
  per identifier.
\<close>

definition nameHit ::
  "('s, 'c) helpers \<Rightarrow> (ident \<rightharpoonup> ApiUser) \<Rightarrow> string \<Rightarrow> ident \<Rightarrow> bool" where
  "nameHit h users query i =
     (case users i of None \<Rightarrow> False | Some user \<Rightarrow> nameMatches h user query)"

definition filterUsersByName ::
  "('s, 'c) helpers \<Rightarrow> ident list \<Rightarrow> (ident \<rightharpoonup> ApiUser) option \<Rightarrow> string \<Rightarrow> error + ident list" where
  "filterUsersByName h ids idx query =
     filterE (\<lambda>i. case idx of
                     None \<Rightarrow> Inl TypeError
                   | Some users \<Rightarrow> Inr (nameHit h users query i)) ids"

text \<open>
  Modelled from the spec: the orderings \<open>sortUserIds\<close> and \<open>sortChatIds\<close> of
  \<open>global/helpers\<close> are not among the sources. Specification 4.2: both are stable
  sorts, the better-ranked identifier first. \<open>orderByDesc\<close> is the stable sort by
  descending key they share.
\<close>

definition orderByDesc :: "('a \<Rightarrow> int) \<Rightarrow> 'a list \<Rightarrow> 'a list" where
  "orderByDesc key xs = sort_key (\<lambda>x. - key x) xs"

definition sortUserIds ::
  "('s, 'c) helpers \<Rightarrow> ident list \<Rightarrow> (ident \<rightharpoonup> ApiUser) \<Rightarrow> (ident \<rightharpoonup> 's) \<Rightarrow> ident list" where
  "sortUserIds h userIds users statuses = orderByDesc (presenceKey h users statuses) userIds"

definition sortChatIds ::
  "('s, 'c) helpers \<Rightarrow> ident list \<Rightarrow> (ident \<rightharpoonup> 'c) \<Rightarrow> bool \<Rightarrow> ident list" where
  "sortChatIds h chatIds chats flag = orderByDesc (chatKey h chats flag) chatIds"

subsection \<open>The component's memoised values\<close>

text \<open>\<open>noAdmins && adminMembersById ? Object.keys(adminMembersById) : []\<close>\<close>

definition adminIds :: "'s Props \<Rightarrow> ident list" where
  "adminIds p =
     (if noAdmins p
      then (case adminMembersById p of Some admins \<Rightarrow> map fst admins | None \<Rightarrow> [])
      else [])"

text \<open>
  \<open>memberIds\<close>: empty when the members or the user index are absent; otherwise the
  members' user identifiers in the order of \<open>sortUserIds\<close>, without the
  \<open>adminIds\<close> when \<open>noAdmins\<close> is set.
\<close>

definition memberIds :: "('s, 'c) helpers \<Rightarrow> 'c GlobalState \<Rightarrow> 's Props \<Rightarrow> ident list" where
  "memberIds h g p =
     (case members p of
        None \<Rightarrow> []
      | Some ms \<Rightarrow>
          (case usersById g of
             None \<Rightarrow> []
           | Some users \<Rightarrow>
               (let userIds = sortUserIds h (map userId ms) users (userStatusesById p)
                in if noAdmins p then filter (\<lambda>u. u \<notin> set (adminIds p)) userIds else userIds)))"

text \<open>
  \<open>listedIds\<close>: the members outside a search, the contacts whose name matches the
  query in a search.
\<close>

definition listedIds :: "('s, 'c) helpers \<Rightarrow> 'c GlobalState \<Rightarrow> 's Props \<Rightarrow> error + ident list" where
  "listedIds h g p =
     (if \<not> truthy (searchQuery p) then Inr (memberIds h g p)
      else (case localContactIds p of
              Some contacts \<Rightarrow> filterUsersByName h contacts (usersById g) (queryText (searchQuery p))
            | None \<Rightarrow> Inr []))"

text \<open>The array literal handed to \<open>unique\<close>, given the listed identifiers.\<close>

definition candidateIds :: "'s Props \<Rightarrow> ident list \<Rightarrow> ident list" where
  "candidateIds p listed =
     listed
     @ (if truthy (searchQuery p) then orEmpty (localUserIds p) else [])
     @ (if truthy (searchQuery p) then orEmpty (globalUserIds p) else [])"

text \<open>
  The callback of the \<open>filter\<close> in \<open>displayedIds\<close>. \<open>eligible\<close> is its verdict
  once \<open>usersById\<close> is there to be read: an identifier without a user record is
  kept by the early \<open>return true\<close>, before either test.
\<close>

definition eligible :: "(ident \<rightharpoonup> ApiUser) \<Rightarrow> 's Props \<Rightarrow> ident \<Rightarrow> bool" where
  "eligible users p contactId =
     (case users contactId of
        None \<Rightarrow> True
      | Some user \<Rightarrow>
          (isChannel p \<or> canBeInvitedToGroup user \<or> \<not> isUserBot user)
          \<and> (\<not> noAdmins p \<or> contactId \<notin> set (adminIds p)))"

definition keepContact ::
  "'c GlobalState \<Rightarrow> 's Props \<Rightarrow> ident \<Rightarrow> error + bool" where
  "keepContact g p contactId =
     (case usersById g of
        None \<Rightarrow> Inl TypeError
      | Some users \<Rightarrow> Inr (eligible users p contactId))"

definition displayedIds :: "('s, 'c) helpers \<Rightarrow> 'c GlobalState \<Rightarrow> 's Props \<Rightarrow> error + ident list" where
  "displayedIds h g p =
     (case listedIds h g p of
        Inl e \<Rightarrow> Inl e
      | Inr listed \<Rightarrow>
          (case filterE (keepContact g p) (unique (candidateIds p listed)) of
             Inl e \<Rightarrow> Inl e
           | Inr kept \<Rightarrow> Inr (sortChatIds h kept (chatsById g) True)))"

text \<open>
  The memoised value of the specification, 4.3, for comparison with \<open>memberIds\<close>:
  \<open>orderUsersByPresence(deduplicate(map(members, m => m.userId)), userIndex,
  statusIndex)\<close>, without the \<open>adminIds\<close> in admins-only mode, and empty when the
  members or the user index are absent.
\<close>

definition memberIds_spec :: "('s, 'c) helpers \<Rightarrow> 'c GlobalState \<Rightarrow> 's Props \<Rightarrow> ident list" where
  "memberIds_spec h g p =
     (case members p of
        None \<Rightarrow> []
      | Some ms \<Rightarrow>
          (case usersById g of
             None \<Rightarrow> []
           | Some users \<Rightarrow>
               (let userIds = sortUserIds h (unique (map userId ms)) users (userStatusesById p)
                in if noAdmins p then filter (\<lambda>u. u \<notin> set (adminIds p)) userIds else userIds)))"

subsection \<open>The context menu of a row\<close>

text \<open>
  \<open>MenuItemContextAction\<close>: the handler calls \<open>setDeletingUserId\<close>, so it is a
  function on the component's \<open>deletingUserId\<close> state. \<open>lang\<close> is the translation
  function of \<open>useLang\<close>.
\<close>

record MenuItemContextAction =
  title :: string
  icon :: string
  handler :: "ident option \<Rightarrow> ident option"

definition setDeletingUserId :: "ident option \<Rightarrow> ident option \<Rightarrow> ident option" where
  "setDeletingUserId v deletingUserId = v"

definition getMemberContextAction ::
  "(string \<Rightarrow> string) \<Rightarrow> 's Props \<Rightarrow> ident \<Rightarrow> MenuItemContextAction list option" where
  "getMemberContextAction lang p memberId =
     (if Some memberId = currentUserId p \<or> \<not> canDeleteMembers p then None
      else Some [\<lparr>title = lang ''lng_context_remove_from_group'',
                  icon = ''stop'',
                  handler = setDeletingUserId (Some memberId)\<rparr>])"

subsection \<open>The pagination window\<close>

text \<open>
  Modelled from the spec: \<open>useInfiniteScroll\<close> of \<open>hooks/useInfiniteScroll\<close> is not
  among the sources. Specification 4.5: a state machine over the displayed identifiers
  and a viewport size. Initially the size is the initial page size (a constant, possibly
  0); LoadMore adds the page increment, capped at the length of the displayed list;
  Reset, when the displayed list changes, puts the size back to the initial page size.
  The size counts identifiers of the list (3: the viewport never shrinks; 8: the size
  never exceeds the length of the list), so a list shorter than a page starts, and
  restarts, at its own length. The viewport is the slice of the displayed list from 0
  to the size.
\<close>

record pagination =
  shownIds :: "ident list"
  viewportSize :: nat

definition viewportIds :: "pagination \<Rightarrow> ident list" where
  "viewportIds st = take (viewportSize st) (shownIds st)"

definition initial :: "nat \<Rightarrow> ident list \<Rightarrow> pagination" where
  "initial pageSize ids = \<lparr>shownIds = ids, viewportSize = min pageSize (length ids)\<rparr>"

definition loadMore :: "nat \<Rightarrow> pagination \<Rightarrow> pagination" where
  "loadMore increment st =
     st\<lparr>viewportSize := min (viewportSize st + increment) (length (shownIds st))\<rparr>"

definition reset :: "nat \<Rightarrow> ident list \<Rightarrow> pagination \<Rightarrow> pagination" where
  "reset pageSize ids st = st\<lparr>shownIds := ids, viewportSize := min pageSize (length ids)\<rparr>"

inductive reachable :: "nat \<Rightarrow> nat \<Rightarrow> pagination \<Rightarrow> bool" for pageSize increment where
  start: "reachable pageSize increment (initial pageSize ids)"
| more: "reachable pageSize increment st \<Longrightarrow> reachable pageSize increment (loadMore increment st)"
| renew: "reachable pageSize increment st \<Longrightarrow> reachable pageSize increment (reset pageSize ids st)"

subsection \<open>Sample snapshots\<close>

text \<open>
  Helpers under which every name matches and all identifiers tie in both rankings, so
  that the stable orderings keep the order they are given.
\<close>

definition matchAny :: "ApiUser \<Rightarrow> string \<Rightarrow> bool" where
  "matchAny user query = True"

definition tiedUsers :: "(ident \<rightharpoonup> ApiUser) \<Rightarrow> (ident \<rightharpoonup> unit) \<Rightarrow> ident \<Rightarrow> int" where
  "tiedUsers users statuses i = 0"

definition tiedChats :: "(ident \<rightharpoonup> unit) \<Rightarrow> bool \<Rightarrow> ident \<Rightarrow> int" where
  "tiedChats chats flag i = 0"

definition plainHelpers :: "(unit, unit) helpers" where
  "plainHelpers = \<lparr>nameMatches = matchAny, presenceKey = tiedUsers, chatKey = tiedChats\<rparr>"

text \<open>A store with the given user index and no chats; props with nothing set.\<close>

definition storeOf :: "(ident \<rightharpoonup> ApiUser) \<Rightarrow> unit GlobalState" where
  "storeOf users = \<lparr>usersById = Some users, chatsById = Map.empty\<rparr>"

definition noProps :: "unit Props" where
  "noProps = \<lparr>noAdmins = False, members = None, adminMembersById = None,
              userStatusesById = Map.empty, isChannel = False, localContactIds = None,
              searchQuery = None, localUserIds = None, globalUserIds = None,
              currentUserId = None, canDeleteMembers = False\<rparr>"

definition member :: "ident \<Rightarrow> ApiChatMember" where
  "member i = \<lparr>userId = i\<rparr>"

definition person :: ApiUser where
  "person = \<lparr>canBeInvitedToGroup = False, isBot = False\<rparr>"

definition closedBot :: ApiUser where
  "closedBot = \<lparr>canBeInvitedToGroup = False, isBot = True\<rparr>"

lemmas sample_defs = displayedIds_def listedIds_def memberIds_def memberIds_spec_def candidateIds_def
  keepContact_def eligible_def filterUsersByName_def nameHit_def adminIds_def unique_def
  sortChatIds_def sortUserIds_def orderByDesc_def truthy_def orEmpty_def queryText_def isUserBot_def
  plainHelpers_def storeOf_def noProps_def member_def person_def closedBot_def
  matchAny_def tiedUsers_def tiedChats_def

section \<open>Properties of the helpers\<close>

lemma filterE_Inr: "filterE f xs = Inr ys \<Longrightarrow> ys = filter (\<lambda>x. f x = Inr True) xs"
  by (induction xs arbitrary: ys) (auto split: sum.splits if_splits)

lemma filterE_total: "(\<And>x. x \<in> set xs \<Longrightarrow> f x = Inr (P x)) \<Longrightarrow> filterE f xs = Inr (filter P xs)"
  by (induction xs) auto

lemma set_uniqueFrom: "set (uniqueFrom seen xs) = set seen \<union> set xs"
  by (induction xs arbitrary: seen) auto

lemma distinct_uniqueFrom: "distinct seen \<Longrightarrow> distinct (uniqueFrom seen xs)"
  by (induction xs arbitrary: seen) auto

lemma uniqueFrom_distinct: "distinct (seen @ xs) \<Longrightarrow> uniqueFrom seen xs = seen @ xs"
  by (induction xs arbitrary: seen) auto

lemma set_unique: "set (unique xs) = set xs"
  by (simp add: unique_def set_uniqueFrom)

lemma distinct_unique: "distinct (unique xs)"
  by (simp add: unique_def distinct_uniqueFrom)

lemma unique_distinct: "distinct xs \<Longrightarrow> unique xs = xs"
  by (simp add: unique_def uniqueFrom_distinct)

lemma set_orderByDesc: "set (orderByDesc k xs) = set xs"
  by (simp add: orderByDesc_def)

lemma distinct_orderByDesc: "distinct (orderByDesc k xs) = distinct xs"
  by (simp add: orderByDesc_def)

lemma mset_orderByDesc: "mset (orderByDesc k xs) = mset xs"
  by (simp add: orderByDesc_def)

lemma sorted_orderByDesc: "sorted_wrt (\<lambda>a b. k b \<le> k a) (orderByDesc k xs)"
proof -
  have "sorted (map (\<lambda>x. - k x) (orderByDesc k xs))"
    by (simp add: orderByDesc_def)
  then show ?thesis
    by (simp add: sorted_map)
qed

lemma uniqueFrom_split:
  "uniqueFrom (s1 @ s2) xs = s1 @ uniqueFrom s2 (filter (\<lambda>y. y \<notin> set s1) xs)"
  by (induction xs arbitrary: s2) auto

lemma filter_uniqueFrom:
  "filter P (uniqueFrom seen xs) = uniqueFrom (filter P seen) (filter P xs)"
  by (induction xs arbitrary: seen) auto

lemma filter_unique: "filter P (unique xs) = unique (filter P xs)"
  by (simp add: unique_def filter_uniqueFrom)

lemma sorted_uniqueFrom:
  "sorted (map f (seen @ xs)) \<Longrightarrow> sorted (map f (uniqueFrom seen xs))"
proof (induction xs arbitrary: seen)
  case Nil
  then show ?case by simp
next
  case (Cons x xs)
  show ?case
  proof (cases "x \<in> set seen")
    case True
    from Cons.prems have "sorted (map f (seen @ xs))"
      by (auto simp: sorted_append)
    with True Cons.IH show ?thesis by simp
  next
    case False
    from Cons.prems have "sorted (map f ((seen @ [x]) @ xs))" by simp
    with False Cons.IH show ?thesis by simp
  qed
qed

lemma sorted_unique: "sorted (map f xs) \<Longrightarrow> sorted (map f (unique xs))"
  using sorted_uniqueFrom [of f "[]" xs] by (simp add: unique_def)

lemma sort_key_unique: "sort_key f (unique xs) = unique (sort_key f xs)"
proof (rule properties_for_sort_key)
  show "mset (unique (sort_key f xs)) = mset (unique xs)"
    using set_eq_iff_mset_eq_distinct [of "unique (sort_key f xs)" "unique xs"]
    by (simp add: distinct_unique set_unique)
  show "sorted (map f (unique (sort_key f xs)))"
    by (simp add: sorted_unique)
  fix k
  have "filter (\<lambda>x. f x = f k) (sort_key f xs) = filter (\<lambda>x. f x = f k) xs"
    by (rule sort_key_stable)
  moreover have "(\<lambda>x. f k = f x) = (\<lambda>x. f x = f k)"
    by auto
  ultimately show "filter (\<lambda>x. f k = f x) (unique (sort_key f xs)) = filter (\<lambda>x. f k = f x) (unique xs)"
    by (simp add: filter_unique)
qed

lemma orderByDesc_unique: "orderByDesc k (unique xs) = unique (orderByDesc k xs)"
  by (simp add: orderByDesc_def sort_key_unique)

lemma stable_orderByDesc: "filter (\<lambda>y. k y = v) (orderByDesc k xs) = filter (\<lambda>y. k y = v) xs"
proof -
  have "filter (\<lambda>y. - k y = - v) (sort_key (\<lambda>x. - k x) xs) = filter (\<lambda>y. - k y = - v) xs"
    by (rule sort_key_stable)
  then show ?thesis
    by (simp add: orderByDesc_def)
qed

lemma keepContact_present: "usersById g = Some users \<Longrightarrow> keepContact g p i = Inr (eligible users p i)"
  by (simp add: keepContact_def)

lemma listedIds_present:
  "usersById g = Some users \<Longrightarrow>
   listedIds h g p =
     Inr (if \<not> truthy (searchQuery p) then memberIds h g p
          else filter (nameHit h users (queryText (searchQuery p))) (orEmpty (localContactIds p)))"
  by (auto simp: listedIds_def filterUsersByName_def orEmpty_def filterE_total split: option.splits)

lemma displayedIds_present:
  "usersById g = Some users \<Longrightarrow>
   displayedIds h g p =
     Inr (sortChatIds h
            (filter (eligible users p)
               (unique (candidateIds p
                  (if \<not> truthy (searchQuery p) then memberIds h g p
                   else filter (nameHit h users (queryText (searchQuery p))) (orEmpty (localContactIds p))))))
            (chatsById g) True)"
  by (simp add: displayedIds_def listedIds_present filterE_total keepContact_present)

lemma displayedIds_sublist:
  "displayedIds h g p = Inr ds \<Longrightarrow>
   \<exists>listed. listedIds h g p = Inr listed \<and>
     ds = sortChatIds h (filter (\<lambda>i. keepContact g p i = Inr True) (unique (candidateIds p listed))) (chatsById g) True"
  by (auto simp: displayedIds_def split: sum.splits dest: filterE_Inr)


lemma set_sortChatIds: "set (sortChatIds h xs chats flag) = set xs"
  by (simp add: sortChatIds_def set_orderByDesc)

lemma distinct_sortChatIds: "distinct (sortChatIds h xs chats flag) = distinct xs"
  by (simp add: sortChatIds_def distinct_orderByDesc)

lemma adminIds_members: "adminIds (p\<lparr>members := ms\<rparr>) = adminIds p"
  by (simp add: adminIds_def split: option.splits)

lemma eligible_members: "eligible users (p\<lparr>members := ms\<rparr>) = eligible users p"
  by (rule ext) (simp add: eligible_def adminIds_members split: option.splits)

lemma bots_dropped:
  assumes "\<not> isChannel p" and "usersById g = Some users" and "users i = Some user"
    and "isUserBot user" and "\<not> canBeInvitedToGroup user"
  shows "\<exists>ds. displayedIds h g p = Inr ds \<and> i \<notin> set ds"
proof -
  have "\<not> eligible users p i"
    using assms by (simp add: eligible_def)
  then show ?thesis
    by (simp add: displayedIds_present [OF assms(2)] set_sortChatIds)
qed



section \<open>The claims\<close>

subsection \<open>C1: identifiers without a user record\<close>

text \<open>
  Claim C1 says that an identifier of the merged candidate list with no user record is
  dropped by the eligibility filter. The callback does the opposite: its first
  statement returns \<open>true\<close> for such an identifier. What holds is that, with the user
  index present, an identifier of the candidate list that has no user record is in
  \<open>displayedIds\<close>, and the computation does not fail. The identifiers left aside are
  the administrators in \<open>noAdmins\<close> mode, which claim C2 is about.
\<close>

theorem unresolved_ids_kept:
  assumes "usersById g = Some users" and "listedIds h g p = Inr listed"
    and "i \<in> set (candidateIds p listed)" and "users i = None"
    and "noAdmins p \<Longrightarrow> i \<notin> set (adminIds p)"
  shows "\<exists>ds. displayedIds h g p = Inr ds \<and> i \<in> set ds"
proof -
  have "eligible users p i"
    using assms(4) by (simp add: eligible_def)
  moreover have "filterE (keepContact g p) (unique (candidateIds p listed))
      = Inr (filter (eligible users p) (unique (candidateIds p listed)))"
    by (simp add: filterE_total keepContact_present [OF assms(1)])
  ultimately show ?thesis
    using assms(2,3) by (simp add: displayedIds_def set_sortChatIds set_unique)
qed

text \<open>
  An instance: in a search of the add-administrator list, the global hit \<open>u9\<close> has no
  user record and is shown.
\<close>

theorem unresolved_ids_kept_witness:
  "usersById (storeOf Map.empty) = Some Map.empty
   \<and> listedIds plainHelpers (storeOf Map.empty)
        (noProps\<lparr>noAdmins := True, adminMembersById := Some [(''a'', member ''a'')],
                  searchQuery := Some ''x'', globalUserIds := Some [''u9'']\<rparr>) = Inr []
   \<and> ''u9'' \<in> set (candidateIds
        (noProps\<lparr>noAdmins := True, adminMembersById := Some [(''a'', member ''a'')],
                  searchQuery := Some ''x'', globalUserIds := Some [''u9'']\<rparr>) [])
   \<and> (\<exists>ds. displayedIds plainHelpers (storeOf Map.empty)
        (noProps\<lparr>noAdmins := True, adminMembersById := Some [(''a'', member ''a'')],
                  searchQuery := Some ''x'', globalUserIds := Some [''u9'']\<rparr>) = Inr ds
          \<and> ''u9'' \<in> set ds)"
  using unresolved_ids_kept [where g = "storeOf Map.empty" and users = Map.empty
      and h = plainHelpers and listed = "[]" and i = "''u9''"
      and p = "noProps\<lparr>noAdmins := True, adminMembersById := Some [(''a'', member ''a'')],
                  searchQuery := Some ''x'', globalUserIds := Some [''u9'']\<rparr>"]
  by (simp add: sample_defs)

text \<open>
  Against the claim as stated: the only member \<open>u1\<close> has no user record, and
  \<open>displayedIds\<close> is \<open>[u1]\<close>.
\<close>

theorem unresolved_member_shown:
  "(Map.empty :: ident \<rightharpoonup> ApiUser) ''u1'' = None
   \<and> listedIds plainHelpers (storeOf Map.empty) (noProps\<lparr>members := Some [member ''u1'']\<rparr>) = Inr [''u1'']
   \<and> displayedIds plainHelpers (storeOf Map.empty) (noProps\<lparr>members := Some [member ''u1'']\<rparr>) = Inr [''u1'']"
  by (simp add: sample_defs)

subsection \<open>C2: administrators in \<open>noAdmins\<close> mode\<close>

text \<open>
  Outside a search the administrators are removed in \<open>memberIds\<close>, whether or not they
  have a user record; in a search the callback removes them only after its early
  return for identifiers without a user record. So an administrator can be displayed
  only in a search, and only when it has no user record.
\<close>

lemma resolved_admins_dropped:
  assumes "usersById g = Some users" and "noAdmins p" and "displayedIds h g p = Inr ds"
    and "i \<in> set ds" and "i \<in> set (adminIds p)"
  shows "users i = None \<and> truthy (searchQuery p)"
proof -
  have el: "eligible users p i" and cand: "i \<in> set (candidateIds p
                  (if \<not> truthy (searchQuery p) then memberIds h g p
                   else filter (nameHit h users (queryText (searchQuery p))) (orEmpty (localContactIds p))))"
    using assms(3,4) by (auto simp: displayedIds_present [OF assms(1)] set_sortChatIds set_unique)
  from el assms(2,5) have none: "users i = None"
    by (auto simp: eligible_def split: option.splits)
  have "truthy (searchQuery p)"
  proof (rule ccontr)
    assume "\<not> truthy (searchQuery p)"
    with cand have "i \<in> set (memberIds h g p)"
      by (simp add: candidateIds_def)
    with assms(2,5) show False
      by (auto simp: memberIds_def Let_def split: option.splits)
  qed
  with none show ?thesis by simp
qed

text \<open>
  Claim C2: in \<open>noAdmins\<close> mode no key of the admin index is in \<open>displayedIds\<close>. The
  code at the input where it fails: a search whose local hit \<open>a\<close> is an administrator
  and has no user record. \<open>a\<close> is in \<open>adminIds\<close> and \<open>displayedIds\<close> is \<open>[a]\<close>.
\<close>

theorem unresolved_admin_shown:
  "''a'' \<in> set (adminIds (noProps\<lparr>noAdmins := True, adminMembersById := Some [(''a'', member ''a'')],
                                    searchQuery := Some ''x'', localUserIds := Some [''a'']\<rparr>))
   \<and> displayedIds plainHelpers (storeOf Map.empty)
         (noProps\<lparr>noAdmins := True, adminMembersById := Some [(''a'', member ''a'')],
                   searchQuery := Some ''x'', localUserIds := Some [''a'']\<rparr>) = Inr [''a'']"
  by (simp add: sample_defs)

subsection \<open>C3: no duplicates\<close>

text \<open>
  Claim C3: \<open>displayedIds\<close> has no repeated identifier. Whatever the snapshot, a result
  is duplicate-free; and there is a result whenever the user index is present.
\<close>

theorem displayedIds_distinct:
  "(\<forall>ds. displayedIds h g p = Inr ds \<longrightarrow> distinct ds)
   \<and> (usersById g \<noteq> None \<longrightarrow> (\<exists>ds. displayedIds h g p = Inr ds))"
proof
  show "\<forall>ds. displayedIds h g p = Inr ds \<longrightarrow> distinct ds"
    by (auto dest!: displayedIds_sublist simp: distinct_sortChatIds distinct_unique)
  show "usersById g \<noteq> None \<longrightarrow> (\<exists>ds. displayedIds h g p = Inr ds)"
    by (auto simp: displayedIds_present)
qed

text \<open>An instance: a member listed twice is displayed once.\<close>

theorem displayedIds_distinct_witness:
  "displayedIds plainHelpers (storeOf Map.empty)
     (noProps\<lparr>members := Some [member ''u1'', member ''u2'', member ''u1'']\<rparr>) = Inr [''u1'', ''u2'']
   \<and> distinct [''u1'', ''u2'']
   \<and> usersById (storeOf Map.empty) \<noteq> None"
  using displayedIds_distinct [of plainHelpers "storeOf Map.empty"
      "noProps\<lparr>members := Some [member ''u1'', member ''u2'', member ''u1'']\<rparr>"]
  by (simp add: sample_defs)

subsection \<open>C4: bots that cannot be invited\<close>

text \<open>
  Claim C4: outside a channel, an identifier whose user is a bot with
  \<open>canBeInvitedToGroup\<close> false is not in \<open>displayedIds\<close>, unless it is a member of the
  chat. The theorem is the claim for the identifiers that are not members; the
  callback makes no difference between members and others (\<open>bots_dropped\<close>).
\<close>

theorem closed_bots_excluded:
  assumes "\<not> isChannel p" and "usersById g = Some users" and "users i = Some user"
    and "isUserBot user" and "\<not> canBeInvitedToGroup user"
    and "i \<notin> userId ` set (orEmpty (members p))"
  shows "\<exists>ds. displayedIds h g p = Inr ds \<and> i \<notin> set ds"
  using assms(1-5) by (rule bots_dropped)

text \<open>An instance, Scenario 4 of the specification: the search hit \<open>u7\<close> is such a bot.\<close>

theorem closed_bots_excluded_witness:
  "\<not> isChannel (noProps\<lparr>searchQuery := Some ''b'', globalUserIds := Some [''u7'', ''u8'']\<rparr>)
   \<and> usersById (storeOf [''u7'' \<mapsto> closedBot]) = Some [''u7'' \<mapsto> closedBot]
   \<and> isUserBot closedBot \<and> \<not> canBeInvitedToGroup closedBot
   \<and> ''u7'' \<notin> userId ` set (orEmpty (members
          (noProps\<lparr>searchQuery := Some ''b'', globalUserIds := Some [''u7'', ''u8'']\<rparr>)))
   \<and> displayedIds plainHelpers (storeOf [''u7'' \<mapsto> closedBot])
        (noProps\<lparr>searchQuery := Some ''b'', globalUserIds := Some [''u7'', ''u8'']\<rparr>) = Inr [''u8'']"
  using closed_bots_excluded [where p = "noProps\<lparr>searchQuery := Some ''b'', globalUserIds := Some [''u7'', ''u8'']\<rparr>"
      and g = "storeOf [''u7'' \<mapsto> closedBot]" and users = "[''u7'' \<mapsto> closedBot]"
      and i = "''u7''" and user = closedBot and h = plainHelpers]
  by (simp add: sample_defs)

subsection \<open>C5: \<open>memberIds\<close>\<close>

text \<open>
  Claim C5 says \<open>memberIds\<close> is the presence-ordered deduplication of the members'
  user identifiers. The source sorts the mapped identifiers as they are, and
  \<open>unique\<close> is applied only later, in \<open>displayedIds\<close>. With members and user index
  present: \<open>memberIds\<close> is the presence-ordering of the members' identifiers as they
  are, without the \<open>adminIds\<close> in \<open>noAdmins\<close> mode, so that every identifier kept
  occurs as often as among the members; removing the later repeats from \<open>memberIds\<close>
  gives the value of the claim; and the two are equal when the members' identifiers
  are pairwise distinct.
\<close>

theorem memberIds_ordered:
  assumes "members p = Some ms" and "usersById g = Some users"
  shows "memberIds h g p
           = filter (\<lambda>u. noAdmins p \<longrightarrow> u \<notin> set (adminIds p))
               (sortUserIds h (map userId ms) users (userStatusesById p))
    \<and> mset (memberIds h g p)
           = filter_mset (\<lambda>u. noAdmins p \<longrightarrow> u \<notin> set (adminIds p)) (mset (map userId ms))
    \<and> unique (memberIds h g p) = memberIds_spec h g p
    \<and> (distinct (map userId ms) \<longrightarrow> memberIds h g p = memberIds_spec h g p)"
proof -
  let ?keep = "\<lambda>u. noAdmins p \<longrightarrow> u \<notin> set (adminIds p)"
  let ?k = "presenceKey h users (userStatusesById p)"
  have m: "memberIds h g p = filter ?keep (orderByDesc ?k (map userId ms))"
    using assms by (simp add: memberIds_def sortUserIds_def Let_def)
  have s: "memberIds_spec h g p = filter ?keep (orderByDesc ?k (unique (map userId ms)))"
    using assms by (simp add: memberIds_spec_def sortUserIds_def Let_def)
  have u: "unique (memberIds h g p) = memberIds_spec h g p"
    by (simp add: m s orderByDesc_unique filter_unique)
  have d: "distinct (map userId ms) \<longrightarrow> memberIds h g p = memberIds_spec h g p"
    by (simp add: m s unique_distinct)
  have c: "mset (memberIds h g p) = filter_mset ?keep (mset (map userId ms))"
    by (simp add: m mset_orderByDesc)
  from m u d c show ?thesis
    by (simp add: sortUserIds_def)
qed

text \<open>
  An instance: \<open>u2\<close> is a member twice, the administrator \<open>u1\<close> is removed;
  \<open>memberIds\<close> is \<open>[u2, u2]\<close>, the value of the claim \<open>[u2]\<close>.
\<close>

theorem memberIds_ordered_witness:
  "members (noProps\<lparr>noAdmins := True, adminMembersById := Some [(''u1'', member ''u1'')],
                    members := Some [member ''u2'', member ''u1'', member ''u2'']\<rparr>)
     = Some [member ''u2'', member ''u1'', member ''u2'']
   \<and> usersById (storeOf Map.empty) = Some Map.empty
   \<and> memberIds plainHelpers (storeOf Map.empty)
        (noProps\<lparr>noAdmins := True, adminMembersById := Some [(''u1'', member ''u1'')],
                  members := Some [member ''u2'', member ''u1'', member ''u2'']\<rparr>) = [''u2'', ''u2'']
   \<and> memberIds_spec plainHelpers (storeOf Map.empty)
        (noProps\<lparr>noAdmins := True, adminMembersById := Some [(''u1'', member ''u1'')],
                  members := Some [member ''u2'', member ''u1'', member ''u2'']\<rparr>) = [''u2'']
   \<and> unique [''u2'', ''u2''] = [''u2'']"
  using memberIds_ordered [where p = "noProps\<lparr>noAdmins := True,
        adminMembersById := Some [(''u1'', member ''u1'')],
        members := Some [member ''u2'', member ''u1'', member ''u2'']\<rparr>"
      and ms = "[member ''u2'', member ''u1'', member ''u2'']" and g = "storeOf Map.empty"
      and users = Map.empty and h = plainHelpers]
  by (simp add: sample_defs)

text \<open>
  Against the claim as stated: a member listed twice is twice in \<open>memberIds\<close> and once
  in the specification's value.
\<close>

theorem memberIds_keeps_duplicates:
  "memberIds plainHelpers (storeOf Map.empty) (noProps\<lparr>members := Some [member ''u1'', member ''u1'']\<rparr>)
     = [''u1'', ''u1'']
   \<and> memberIds_spec plainHelpers (storeOf Map.empty) (noProps\<lparr>members := Some [member ''u1'', member ''u1'']\<rparr>)
     = [''u1'']"
  by (simp add: sample_defs)

subsection \<open>C6: what \<open>displayedIds\<close> is assembled from\<close>

text \<open>
  Claim C6: with a non-empty query \<open>displayedIds\<close> is assembled from the name-filtered
  local contacts and the local and global search results, and not from the members;
  with an empty or undefined query it is assembled from \<open>memberIds\<close> only. With the
  user index present, both assemblies as equations, and in a search the members can be
  replaced by anything.
\<close>

theorem displayedIds_sources:
  assumes "usersById g = Some users"
  shows "(truthy (searchQuery p) \<longrightarrow>
            displayedIds h g p =
              Inr (sortChatIds h
                     (filter (eligible users p)
                        (unique (filter (nameHit h users (queryText (searchQuery p))) (orEmpty (localContactIds p))
                                 @ orEmpty (localUserIds p) @ orEmpty (globalUserIds p))))
                     (chatsById g) True)
            \<and> displayedIds h g (p\<lparr>members := ms\<rparr>) = displayedIds h g p)
       \<and> (\<not> truthy (searchQuery p) \<longrightarrow>
            displayedIds h g p =
              Inr (sortChatIds h (filter (eligible users p) (unique (memberIds h g p))) (chatsById g) True))"
  by (simp add: displayedIds_present [OF assms] candidateIds_def eligible_members)

text \<open>
  An instance, Scenario 3 of the specification with every name matching: a search, and
  the same snapshot without the query.
\<close>

theorem displayedIds_sources_witness:
  "usersById (storeOf [''u3'' \<mapsto> person]) = Some [''u3'' \<mapsto> person]
   \<and> truthy (searchQuery (noProps\<lparr>members := Some [member ''u1''], localContactIds := Some [''u3'', ''u4''],
        searchQuery := Some ''ann'', localUserIds := Some [''u5''], globalUserIds := Some [''u6'']\<rparr>))
   \<and> displayedIds plainHelpers (storeOf [''u3'' \<mapsto> person])
        (noProps\<lparr>members := Some [member ''u1''], localContactIds := Some [''u3'', ''u4''],
          searchQuery := Some ''ann'', localUserIds := Some [''u5''], globalUserIds := Some [''u6'']\<rparr>)
      = Inr [''u3'', ''u5'', ''u6'']
   \<and> \<not> truthy (searchQuery (noProps\<lparr>members := Some [member ''u1''], localContactIds := Some [''u3'', ''u4''],
        localUserIds := Some [''u5''], globalUserIds := Some [''u6'']\<rparr>))
   \<and> displayedIds plainHelpers (storeOf [''u3'' \<mapsto> person])
        (noProps\<lparr>members := Some [member ''u1''], localContactIds := Some [''u3'', ''u4''],
          localUserIds := Some [''u5''], globalUserIds := Some [''u6'']\<rparr>)
      = Inr [''u1'']"
  using displayedIds_sources [where g = "storeOf [''u3'' \<mapsto> person]" and users = "[''u3'' \<mapsto> person]"
      and h = plainHelpers and ms = None
      and p = "noProps\<lparr>members := Some [member ''u1''], localContactIds := Some [''u3'', ''u4''],
          searchQuery := Some ''ann'', localUserIds := Some [''u5''], globalUserIds := Some [''u6'']\<rparr>"]
    displayedIds_sources [where g = "storeOf [''u3'' \<mapsto> person]" and users = "[''u3'' \<mapsto> person]"
      and h = plainHelpers and ms = None
      and p = "noProps\<lparr>members := Some [member ''u1''], localContactIds := Some [''u3'', ''u4''],
          localUserIds := Some [''u5''], globalUserIds := Some [''u6'']\<rparr>"]
  by (simp add: sample_defs)

subsection \<open>C7: the pagination window\<close>

text \<open>The size of a reachable state is within the list, and LoadMore keeps states reachable.\<close>

lemma reachable_bounded:
  "reachable pageSize increment st \<Longrightarrow> viewportSize st \<le> length (shownIds st)"
  by (induction rule: reachable.induct) (simp_all add: initial_def loadMore_def reset_def)

lemma reachable_funpow:
  "reachable pageSize increment st \<Longrightarrow> reachable pageSize increment ((loadMore increment ^^ n) st)"
  by (induction n) (simp_all add: reachable.more)

lemma loadMore_grows:
  "viewportSize st \<le> length (shownIds st) \<Longrightarrow> viewportSize st \<le> viewportSize (loadMore increment st)"
  by (simp add: loadMore_def)

text \<open>
  Scenario 5 of the specification: 50 identifiers, a page of 20; the size starts at 20,
  two LoadMore bring it to 50, and a third leaves it there.
\<close>

lemma scenario_fifty:
  assumes "length ids = 50"
  shows "viewportSize (initial 20 ids) = 20"
    and "viewportSize (loadMore 20 (loadMore 20 (initial 20 ids))) = 50"
    and "viewportSize (loadMore 20 (loadMore 20 (loadMore 20 (initial 20 ids)))) = 50"
  using assms by (simp_all add: initial_def loadMore_def)

text \<open>
  Claim C7: in every reachable pagination state the viewport is a prefix of the
  displayed list, equal to it element for element up to the viewport size; LoadMore,
  once or any number of times in succession, never decreases the viewport size, and
  the size never exceeds the length of the displayed list.
\<close>

theorem viewport_prefix:
  assumes "reachable pageSize increment st"
  shows "prefix (viewportIds st) (shownIds st)
    \<and> length (viewportIds st) = viewportSize st
    \<and> (\<forall>k < viewportSize st. viewportIds st ! k = shownIds st ! k)
    \<and> viewportSize st \<le> length (shownIds st)
    \<and> viewportSize st \<le> viewportSize (loadMore increment st)
    \<and> (\<forall>n. viewportSize st \<le> viewportSize ((loadMore increment ^^ n) st)
           \<and> viewportSize ((loadMore increment ^^ n) st) \<le> length (shownIds ((loadMore increment ^^ n) st)))"
proof -
  have b: "viewportSize st \<le> length (shownIds st)"
    using assms by (rule reachable_bounded)
  have grow: "viewportSize st \<le> viewportSize ((loadMore increment ^^ n) st)" for n
  proof (induction n)
    case 0
    show ?case by simp
  next
    case (Suc n)
    have "reachable pageSize increment ((loadMore increment ^^ n) st)"
      using assms by (rule reachable_funpow)
    then have "viewportSize ((loadMore increment ^^ n) st)
        \<le> length (shownIds ((loadMore increment ^^ n) st))"
      by (rule reachable_bounded)
    then have "viewportSize ((loadMore increment ^^ n) st)
        \<le> viewportSize (loadMore increment ((loadMore increment ^^ n) st))"
      by (rule loadMore_grows)
    with Suc show ?case by simp
  qed
  have bound: "viewportSize ((loadMore increment ^^ n) st) \<le> length (shownIds ((loadMore increment ^^ n) st))" for n
  proof -
    have "reachable pageSize increment ((loadMore increment ^^ n) st)"
      using assms by (rule reachable_funpow)
    then show ?thesis by (rule reachable_bounded)
  qed
  have "prefix (viewportIds st) (shownIds st)"
    by (simp add: viewportIds_def take_is_prefix)
  moreover have "length (viewportIds st) = viewportSize st"
    using b by (simp add: viewportIds_def)
  moreover have "\<forall>k < viewportSize st. viewportIds st ! k = shownIds st ! k"
    by (simp add: viewportIds_def)
  moreover have "viewportSize st \<le> viewportSize (loadMore increment st)"
    using b by (rule loadMore_grows)
  ultimately show ?thesis
    using b grow bound by blast
qed

text \<open>An instance: a list of two, shorter than the page of 20, after one LoadMore.\<close>

theorem viewport_prefix_witness:
  "reachable 20 20 (loadMore 20 (initial 20 [''u1'', ''u2'']))
   \<and> viewportIds (loadMore 20 (initial 20 [''u1'', ''u2''])) = [''u1'', ''u2'']
   \<and> prefix (viewportIds (loadMore 20 (initial 20 [''u1'', ''u2'']))) [''u1'', ''u2'']
   \<and> viewportSize (loadMore 20 (initial 20 [''u1'', ''u2''])) = 2
   \<and> viewportSize (loadMore 20 (loadMore 20 (initial 20 [''u1'', ''u2'']))) = 2"
proof -
  have r: "reachable 20 20 (loadMore 20 (initial 20 [''u1'', ''u2'']))"
    by (intro reachable.more reachable.start)
  show ?thesis
    using r viewport_prefix [OF r] by (simp add: initial_def loadMore_def viewportIds_def)
qed

subsection \<open>C8: the context action of a row\<close>

text \<open>
  Claim C8: the remove-from-group action of a row is available exactly when the
  identifier is not the viewer's own and \<open>canDeleteMembers\<close> is set; otherwise
  \<open>getMemberContextAction\<close> returns \<open>undefined\<close>. When available, it is one action,
  whose handler sets \<open>deletingUserId\<close> to the row's identifier.
\<close>

theorem context_action_available:
  "(getMemberContextAction lang p memberId \<noteq> None)
     = (Some memberId \<noteq> currentUserId p \<and> canDeleteMembers p)
   \<and> (\<forall>acts. getMemberContextAction lang p memberId = Some acts \<longrightarrow>
         map (\<lambda>a. handler a deleting) acts = [Some memberId])"
  by (auto simp: getMemberContextAction_def setDeletingUserId_def)

text \<open>An instance: the viewer \<open>me\<close> may delete members; the row of \<open>u2\<close> has the action.\<close>

theorem context_action_available_witness:
  "getMemberContextAction id (noProps\<lparr>currentUserId := Some ''me'', canDeleteMembers := True\<rparr>) ''u2''
     = Some [\<lparr>title = ''lng_context_remove_from_group'', icon = ''stop'',
              handler = setDeletingUserId (Some ''u2'')\<rparr>]
   \<and> map (\<lambda>a. handler a None)
        [\<lparr>title = ''lng_context_remove_from_group'', icon = ''stop'',
          handler = setDeletingUserId (Some ''u2'')\<rparr>] = [Some ''u2'']
   \<and> getMemberContextAction id (noProps\<lparr>currentUserId := Some ''me'', canDeleteMembers := True\<rparr>) ''me''
     = None"
  using context_action_available [of id "noProps\<lparr>currentUserId := Some ''me'', canDeleteMembers := True\<rparr>" "''u2''" None]
    context_action_available [of id "noProps\<lparr>currentUserId := Some ''me'', canDeleteMembers := True\<rparr>" "''me''" None]
  by (simp add: getMemberContextAction_def setDeletingUserId_def noProps_def)

subsection \<open>C9: outside a search, the search inputs do not matter\<close>

text \<open>
  Claim C9: when the query is empty or undefined, \<open>displayedIds\<close> does not depend on
  \<open>localContactIds\<close>, \<open>localUserIds\<close> and \<open>globalUserIds\<close>: replacing the three by
  anything leaves it as it is, error or list.
\<close>

theorem search_inputs_ignored:
  assumes "\<not> truthy (searchQuery p)"
  shows "displayedIds h g (p\<lparr>localContactIds := contacts, localUserIds := locals, globalUserIds := globals\<rparr>)
         = displayedIds h g p"
proof -
  let ?p' = "p\<lparr>localContactIds := contacts, localUserIds := locals, globalUserIds := globals\<rparr>"
  have a: "adminIds ?p' = adminIds p"
    by (simp add: adminIds_def split: option.splits)
  have m: "memberIds h g ?p' = memberIds h g p"
    by (simp add: memberIds_def a Let_def split: option.splits)
  have l: "listedIds h g ?p' = listedIds h g p"
    using assms by (simp add: listedIds_def m split: option.splits)
  have c: "candidateIds ?p' = candidateIds p"
    using assms by (simp add: candidateIds_def fun_eq_iff)
  have k: "keepContact g ?p' = keepContact g p"
    by (simp add: keepContact_def eligible_def a fun_eq_iff split: option.splits)
  show ?thesis
    by (simp add: displayedIds_def l c k cong: sum.case_cong)
qed

text \<open>An instance: the empty query, with and without contacts and search results.\<close>

theorem search_inputs_ignored_witness:
  "\<not> truthy (searchQuery (noProps\<lparr>members := Some [member ''u1''], searchQuery := Some []\<rparr>))
   \<and> displayedIds plainHelpers (storeOf Map.empty)
        (noProps\<lparr>members := Some [member ''u1''], searchQuery := Some []\<rparr>
           \<lparr>localContactIds := Some [''u3''], localUserIds := Some [''u5''], globalUserIds := Some [''u6'']\<rparr>)
      = Inr [''u1'']
   \<and> displayedIds plainHelpers (storeOf Map.empty)
        (noProps\<lparr>members := Some [member ''u1''], searchQuery := Some []\<rparr>) = Inr [''u1'']"
  using search_inputs_ignored [where p = "noProps\<lparr>members := Some [member ''u1''], searchQuery := Some []\<rparr>"
      and h = plainHelpers and g = "storeOf Map.empty"
      and contacts = "Some [''u3'']" and locals = "Some [''u5'']" and globals = "Some [''u6'']"]
  by (simp add: sample_defs)

subsection \<open>C10: \<open>noAdmins\<close> without an admin index\<close>

text \<open>
  Claim C10: when \<open>noAdmins\<close> is set and \<open>adminMembersById\<close> is undefined,
  \<open>adminIds\<close> is empty and no administrator is excluded: \<open>memberIds\<close> and
  \<open>displayedIds\<close> are what they are with an empty admin index, and what they are
  with \<open>noAdmins\<close> unset.
\<close>

theorem absent_admin_index:
  assumes "noAdmins p" and "adminMembersById p = None"
  shows "adminIds p = []
    \<and> memberIds h g p = memberIds h g (p\<lparr>adminMembersById := Some []\<rparr>)
    \<and> displayedIds h g p = displayedIds h g (p\<lparr>adminMembersById := Some []\<rparr>)
    \<and> memberIds h g p = memberIds h g (p\<lparr>noAdmins := False\<rparr>)
    \<and> displayedIds h g p = displayedIds h g (p\<lparr>noAdmins := False\<rparr>)"
proof -
  let ?e = "p\<lparr>adminMembersById := Some []\<rparr>" and ?f = "p\<lparr>noAdmins := False\<rparr>"
  have a: "adminIds p = []" "adminIds ?e = []" "adminIds ?f = []"
    using assms by (simp_all add: adminIds_def)
  have m: "memberIds h g ?e = memberIds h g p" "memberIds h g ?f = memberIds h g p"
    using assms(1) by (simp_all add: memberIds_def a Let_def split: option.splits)
  have l: "listedIds h g ?e = listedIds h g p" "listedIds h g ?f = listedIds h g p"
    by (simp_all add: listedIds_def m split: option.splits)
  have c: "candidateIds ?e = candidateIds p" "candidateIds ?f = candidateIds p"
    by (simp_all add: candidateIds_def fun_eq_iff)
  have k: "keepContact g ?e = keepContact g p" "keepContact g ?f = keepContact g p"
    by (simp_all add: keepContact_def eligible_def a fun_eq_iff split: option.splits)
  show ?thesis
    by (simp add: displayedIds_def a m l c k cong: sum.case_cong)
qed

text \<open>An instance: two members and no admin index; both are displayed.\<close>

theorem absent_admin_index_witness:
  "noAdmins (noProps\<lparr>noAdmins := True, members := Some [member ''u1'', member ''u2'']\<rparr>)
   \<and> adminMembersById (noProps\<lparr>noAdmins := True, members := Some [member ''u1'', member ''u2'']\<rparr>) = None
   \<and> adminIds (noProps\<lparr>noAdmins := True, members := Some [member ''u1'', member ''u2'']\<rparr>) = []
   \<and> displayedIds plainHelpers (storeOf Map.empty)
        (noProps\<lparr>noAdmins := True, members := Some [member ''u1'', member ''u2'']\<rparr>) = Inr [''u1'', ''u2'']
   \<and> displayedIds plainHelpers (storeOf Map.empty)
        (noProps\<lparr>noAdmins := True, members := Some [member ''u1'', member ''u2'']\<rparr>
           \<lparr>noAdmins := False\<rparr>) = Inr [''u1'', ''u2'']"
  using absent_admin_index [where p = "noProps\<lparr>noAdmins := True, members := Some [member ''u1'', member ''u2'']\<rparr>"
      and h = plainHelpers and g = "storeOf Map.empty"]
  by (simp add: sample_defs)

end
